theory Spec2Isabelle
  imports Complex_Main
begin

section \<open>Data model of \<open>route_planner/calculator.py\<close>\<close>

text \<open>
  Python's numbers here are floats (IEEE binary64): every \<open>+\<close>, \<open>-\<close>, \<open>*\<close> and \<open>/\<close> of the
  source gives the exact result rounded to the nearest float. A float is modelled by the
  real number it stands for, and the four operations take the rounding function as a
  parameter \<open>rnd\<close>, so that nothing is proved from an identity that holds only without
  rounding. Comparisons and \<open>min\<close> are exact. Infinities and NaN are not modelled. The
  one arithmetic failure Python has on these values, a division by zero, is written out
  as an error.
\<close>

definition fadd :: "(real \<Rightarrow> real) \<Rightarrow> real \<Rightarrow> real \<Rightarrow> real" where
  "fadd rnd x y = rnd (x + y)"

definition fsub :: "(real \<Rightarrow> real) \<Rightarrow> real \<Rightarrow> real \<Rightarrow> real" where
  "fsub rnd x y = rnd (x - y)"

definition fmul :: "(real \<Rightarrow> real) \<Rightarrow> real \<Rightarrow> real \<Rightarrow> real" where
  "fmul rnd x y = rnd (x * y)"

definition fdiv :: "(real \<Rightarrow> real) \<Rightarrow> real \<Rightarrow> real \<Rightarrow> real" where
  "fdiv rnd x y = rnd (x / y)"

text \<open>
  The rounding of binary64 on the normal range: to the nearest multiple of the unit in
  the last place of a 53-bit significand, ties to the even multiple.
\<close>

definition round_half_even :: "real \<Rightarrow> int" where
  "round_half_even y =
     (let f = \<lfloor>y\<rfloor>; r = y - of_int f
      in if r < 1 / 2 then f else if 1 / 2 < r then f + 1 else if even f then f else f + 1)"

definition binary64_round :: "real \<Rightarrow> real" where
  "binary64_round x =
     (if x = 0 then 0
      else let u = 2 powr (of_int \<lfloor>log 2 \<bar>x\<bar>\<rfloor> - 52)
           in u * of_int (round_half_even (x / u)))"

text \<open>Arithmetic without rounding, for statements about what the algorithm does in exact numbers.\<close>

definition exact :: "real \<Rightarrow> real" where
  "exact x = x"

datatype ActivityType = LOADING | DRIVING | BREAK | UNLOADING

record Activity =
  activity_type :: ActivityType
  start_time :: real
  duration :: real
  miles :: real
  act_notes :: string

text \<open>The property \<open>end_time\<close>: \<open>self.start_time + self.duration\<close>.\<close>

definition end_time :: "(real \<Rightarrow> real) \<Rightarrow> Activity \<Rightarrow> real" where
  "end_time rnd a = fadd rnd (start_time a) (duration a)"

record RouteMetrics =
  total_miles :: real
  deadhead_miles :: real
  loaded_miles :: real
  total_driving_time :: real
  total_break_time :: real
  total_load_unload_time :: real
  total_time :: real
  activities :: "Activity list"

text \<open>The attributes set by \<open>RouteMetricsCalculator.__init__\<close> (no validation there).\<close>

record RouteMetricsCalculator =
  speed_mph :: real
  max_driving_hours :: real
  break_duration :: real
  loading_duration :: real
  unloading_duration :: real

definition default_calculator :: RouteMetricsCalculator where
  "default_calculator =
     \<lparr>speed_mph = 55, max_driving_hours = 11, break_duration = 10,
      loading_duration = 3 / 2, unloading_duration = 3 / 2\<rparr>"

text \<open>
  The messages of the five \<open>ValueError\<close>s of \<open>calculate\<close>, in the order of their checks:
  "Total miles cannot be negative", "Deadhead miles cannot be negative",
  "Deadhead miles cannot exceed total miles", "Remaining hours cannot be negative" and
  "Remaining hours cannot exceed max driving hours (m)", the last one carrying the
  configured maximum that the message interpolates.
\<close>

datatype message =
    Total_miles_negative
  | Deadhead_miles_negative
  | Deadhead_miles_exceed_total
  | Remaining_hours_negative
  | Remaining_hours_exceed_max real

datatype error = ValueError message | ZeroDivisionError

section \<open>The scheduling loop of \<open>calculate\<close>\<close>

text \<open>
  The local variables that the \<open>while\<close> loop reads and updates. The three that share a
  name with a field of \<open>RouteMetrics\<close> carry the prefix \<open>lv_\<close>.
\<close>

record locals =
  lv_activities :: "Activity list"
  current_time :: real
  miles_driven :: real
  hours_until_break :: real
  lv_total_driving_time :: real
  lv_total_break_time :: real
  miles_remaining :: real

text \<open>
  One pass through the body of \<open>while miles_remaining > 0\<close> (lines 178 to 219). The
  division \<open>miles_this_segment / self.speed_mph\<close> raises \<open>ZeroDivisionError\<close> when the
  speed is zero, before anything is appended.
\<close>

definition loop_body ::
  "(real \<Rightarrow> real) \<Rightarrow> RouteMetricsCalculator \<Rightarrow> real \<Rightarrow> locals \<Rightarrow> error + locals" where
  "loop_body rnd self deadhead_miles_in st =
     (let max_miles_before_break = fmul rnd (hours_until_break st) (speed_mph self);
          miles_this_segment = min (miles_remaining st) max_miles_before_break
      in if speed_mph self = 0 then Inl ZeroDivisionError
         else
           let segment_duration = fdiv rnd miles_this_segment (speed_mph self);
               segment_note =
                 (if miles_driven st < deadhead_miles_in then
                    (let deadhead_remaining = fsub rnd deadhead_miles_in (miles_driven st)
                     in if miles_this_segment \<le> deadhead_remaining then ''Deadhead (empty)''
                        else ''Deadhead + Loaded'')
                  else ''Loaded haul'');
               st1 = st\<lparr>lv_activities := lv_activities st @
                          [\<lparr>activity_type = DRIVING, start_time = current_time st,
                            duration = segment_duration, miles = miles_this_segment,
                            act_notes = segment_note\<rparr>],
                        current_time := fadd rnd (current_time st) segment_duration,
                        miles_driven := fadd rnd (miles_driven st) miles_this_segment,
                        hours_until_break := fsub rnd (hours_until_break st) segment_duration,
                        lv_total_driving_time :=
                          fadd rnd (lv_total_driving_time st) segment_duration,
                        miles_remaining := fsub rnd (miles_remaining st) miles_this_segment\<rparr>
           in if hours_until_break st1 \<le> 0 \<and> miles_remaining st1 > 0 then
                Inr (st1\<lparr>lv_activities := lv_activities st1 @
                           [\<lparr>activity_type = BREAK, start_time = current_time st1,
                             duration = break_duration self, miles = 0,
                             act_notes = ''Mandatory 10-hour rest''\<rparr>],
                         current_time := fadd rnd (current_time st1) (break_duration self),
                         hours_until_break := max_driving_hours self,
                         lv_total_break_time :=
                           fadd rnd (lv_total_break_time st1) (break_duration self)\<rparr>)
              else Inr st1)"

text \<open>
  The loop itself. Nothing in the source bounds the number of passes, so the model is a
  partial function: \<open>None\<close> stands for a loop that never ends.
\<close>

partial_function (option) drive_loop ::
  "(real \<Rightarrow> real) \<Rightarrow> RouteMetricsCalculator \<Rightarrow> real \<Rightarrow> locals \<Rightarrow> (error + locals) option" where
  "drive_loop rnd self deadhead_miles_in st =
     (if miles_remaining st > 0 then
        (case loop_body rnd self deadhead_miles_in st of
           Inl e \<Rightarrow> Some (Inl e)
         | Inr st' \<Rightarrow> drive_loop rnd self deadhead_miles_in st')
      else Some (Inr st))"

declare drive_loop.simps [code]

section \<open>\<open>RouteMetricsCalculator.calculate\<close>\<close>

definition calculate ::
  "(real \<Rightarrow> real) \<Rightarrow> RouteMetricsCalculator \<Rightarrow> real \<Rightarrow> real \<Rightarrow> real \<Rightarrow>
     (error + RouteMetrics) option" where
  "calculate rnd self total_miles_in deadhead_miles_in remaining_hours =
     (if total_miles_in < 0 then Some (Inl (ValueError Total_miles_negative))
      else if deadhead_miles_in < 0 then Some (Inl (ValueError Deadhead_miles_negative))
      else if deadhead_miles_in > total_miles_in then
        Some (Inl (ValueError Deadhead_miles_exceed_total))
      else if remaining_hours < 0 then Some (Inl (ValueError Remaining_hours_negative))
      else if remaining_hours > max_driving_hours self then
        Some (Inl (ValueError (Remaining_hours_exceed_max (max_driving_hours self))))
      else
        let loaded = fsub rnd total_miles_in deadhead_miles_in;
            st0 = \<lparr>lv_activities =
                     [\<lparr>activity_type = LOADING, start_time = 0,
                       duration = loading_duration self, miles = 0,
                       act_notes = ''Loading cargo at origin''\<rparr>],
                   current_time = fadd rnd 0 (loading_duration self),
                   miles_driven = 0,
                   hours_until_break = remaining_hours,
                   lv_total_driving_time = 0,
                   lv_total_break_time = 0,
                   miles_remaining = total_miles_in\<rparr>
        in case drive_loop rnd self deadhead_miles_in st0 of
             None \<Rightarrow> None
           | Some (Inl e) \<Rightarrow> Some (Inl e)
           | Some (Inr st) \<Rightarrow>
               Some (Inr \<lparr>total_miles = total_miles_in,
                          deadhead_miles = deadhead_miles_in,
                          loaded_miles = loaded,
                          total_driving_time = lv_total_driving_time st,
                          total_break_time = lv_total_break_time st,
                          total_load_unload_time =
                            fadd rnd (loading_duration self) (unloading_duration self),
                          total_time = fadd rnd (current_time st) (unloading_duration self),
                          activities = lv_activities st @
                            [\<lparr>activity_type = UNLOADING, start_time = current_time st,
                              duration = unloading_duration self, miles = 0,
                              act_notes = ''Unloading cargo at destination''\<rparr>]\<rparr>))"

section \<open>Observations on a schedule\<close>

text \<open>
  A timeline is contiguous when every activity ends where the next one starts;
  \<open>durations_of\<close> and \<open>miles_of\<close> add up one field over the activities of one kind, from
  left to right and starting from 0, with the code's addition.
\<close>

fun contiguous :: "(real \<Rightarrow> real) \<Rightarrow> Activity list \<Rightarrow> bool" where
  "contiguous rnd [] = True"
| "contiguous rnd [a] = True"
| "contiguous rnd (a # b # rest) = (end_time rnd a = start_time b \<and> contiguous rnd (b # rest))"

definition durations_of :: "(real \<Rightarrow> real) \<Rightarrow> ActivityType \<Rightarrow> Activity list \<Rightarrow> real" where
  "durations_of rnd k acts =
     foldl (fadd rnd) 0 (map duration (filter (\<lambda>a. activity_type a = k) acts))"

definition miles_of :: "(real \<Rightarrow> real) \<Rightarrow> ActivityType \<Rightarrow> Activity list \<Rightarrow> real" where
  "miles_of rnd k acts =
     foldl (fadd rnd) 0 (map miles (filter (\<lambda>a. activity_type a = k) acts))"

text \<open>
  The inputs that pass the five checks of \<open>calculate\<close>, and names for the pieces that
  \<open>calculate\<close> builds around the loop: the Loading activity, the local variables as the
  loop first sees them, the Unloading activity and the returned record.
\<close>

definition valid_input :: "RouteMetricsCalculator \<Rightarrow> real \<Rightarrow> real \<Rightarrow> real \<Rightarrow> bool" where
  "valid_input self total_miles_in deadhead_miles_in remaining_hours \<longleftrightarrow>
     0 \<le> total_miles_in \<and> 0 \<le> deadhead_miles_in \<and> deadhead_miles_in \<le> total_miles_in \<and>
     0 \<le> remaining_hours \<and> remaining_hours \<le> max_driving_hours self"

definition loading_activity :: "RouteMetricsCalculator \<Rightarrow> Activity" where
  "loading_activity self =
     \<lparr>activity_type = LOADING, start_time = 0, duration = loading_duration self, miles = 0,
      act_notes = ''Loading cargo at origin''\<rparr>"

definition locals_after_loading ::
  "(real \<Rightarrow> real) \<Rightarrow> RouteMetricsCalculator \<Rightarrow> real \<Rightarrow> real \<Rightarrow> locals" where
  "locals_after_loading rnd self total_miles_in remaining_hours =
     \<lparr>lv_activities = [loading_activity self],
      current_time = fadd rnd 0 (loading_duration self),
      miles_driven = 0,
      hours_until_break = remaining_hours,
      lv_total_driving_time = 0,
      lv_total_break_time = 0,
      miles_remaining = total_miles_in\<rparr>"

definition unloading_activity :: "RouteMetricsCalculator \<Rightarrow> real \<Rightarrow> Activity" where
  "unloading_activity self t =
     \<lparr>activity_type = UNLOADING, start_time = t, duration = unloading_duration self, miles = 0,
      act_notes = ''Unloading cargo at destination''\<rparr>"

definition metrics_of ::
  "(real \<Rightarrow> real) \<Rightarrow> RouteMetricsCalculator \<Rightarrow> real \<Rightarrow> real \<Rightarrow> locals \<Rightarrow> RouteMetrics" where
  "metrics_of rnd self total_miles_in deadhead_miles_in st =
     \<lparr>total_miles = total_miles_in,
      deadhead_miles = deadhead_miles_in,
      loaded_miles = fsub rnd total_miles_in deadhead_miles_in,
      total_driving_time = lv_total_driving_time st,
      total_break_time = lv_total_break_time st,
      total_load_unload_time = fadd rnd (loading_duration self) (unloading_duration self),
      total_time = fadd rnd (current_time st) (unloading_duration self),
      activities = lv_activities st @ [unloading_activity self (current_time st)]\<rparr>"

text \<open>
  Facts about the local variables that hold before the loop and after every pass: the
  timeline built so far is gapless and ends at the clock; the running totals are the sums
  over the activities emitted so far; only Driving activities carry miles, and their sum
  is \<open>miles_driven\<close>; and the list starts with the Loading activity, followed by Driving
  and Break activities only. The last one, \<open>miles_exact\<close>, holds in arithmetic without
  rounding.
\<close>

definition timeline_ok :: "(real \<Rightarrow> real) \<Rightarrow> locals \<Rightarrow> bool" where
  "timeline_ok rnd st \<longleftrightarrow>
     lv_activities st \<noteq> [] \<and> contiguous rnd (lv_activities st) \<and>
     end_time rnd (last (lv_activities st)) = current_time st \<and>
     start_time (hd (lv_activities st)) = 0"

definition totals_ok :: "(real \<Rightarrow> real) \<Rightarrow> locals \<Rightarrow> bool" where
  "totals_ok rnd st \<longleftrightarrow>
     lv_total_driving_time st = durations_of rnd DRIVING (lv_activities st) \<and>
     lv_total_break_time st = durations_of rnd BREAK (lv_activities st) \<and>
     current_time st = foldl (fadd rnd) 0 (map duration (lv_activities st))"

definition miles_ok :: "(real \<Rightarrow> real) \<Rightarrow> locals \<Rightarrow> bool" where
  "miles_ok rnd st \<longleftrightarrow>
     miles_of rnd DRIVING (lv_activities st) = miles_driven st \<and>
     list_all (\<lambda>a. activity_type a = DRIVING \<or> miles a = 0) (lv_activities st)"

definition shape_ok :: "RouteMetricsCalculator \<Rightarrow> locals \<Rightarrow> bool" where
  "shape_ok self st \<longleftrightarrow>
     (case lv_activities st of
        [] \<Rightarrow> False
      | a # rest \<Rightarrow> a = loading_activity self \<and>
          list_all (\<lambda>b. activity_type b = DRIVING \<or> activity_type b = BREAK) rest)"


text \<open>
  Five runs with the default configuration on routes where no operation rounds (every
  value is an integer or a half), so that the floats are the numbers written here: a
  route with one Break, one without, one that starts with 5 hours left, one of no miles
  and one that starts with no hours left. Two runs that round: total miles the float
  written 14.9, no deadhead miles, remaining hours the float written 0.06; and 700
  miles, no deadhead miles, remaining hours the float written 0.37.
\<close>

definition schedule_715_110_11 :: RouteMetrics where
  "schedule_715_110_11 =
     \<lparr>total_miles = 715, deadhead_miles = 110,
      loaded_miles = 605,
      total_driving_time = 13,
      total_break_time = 10,
      total_load_unload_time = 3,
      total_time = 26,
      activities =
        [\<lparr>activity_type = LOADING, start_time = 0,
          duration = 3 / 2,
          miles = 0,
          act_notes = ''Loading cargo at origin''\<rparr>,
         \<lparr>activity_type = DRIVING, start_time = 3 / 2,
          duration = 11,
          miles = 605,
          act_notes = ''Deadhead + Loaded''\<rparr>,
         \<lparr>activity_type = BREAK, start_time = 25 / 2,
          duration = 10,
          miles = 0,
          act_notes = ''Mandatory 10-hour rest''\<rparr>,
         \<lparr>activity_type = DRIVING, start_time = 45 / 2,
          duration = 2,
          miles = 110,
          act_notes = ''Loaded haul''\<rparr>,
         \<lparr>activity_type = UNLOADING, start_time = 49 / 2,
          duration = 3 / 2,
          miles = 0,
          act_notes = ''Unloading cargo at destination''\<rparr>]\<rparr>"

definition schedule_330_55_11 :: RouteMetrics where
  "schedule_330_55_11 =
     \<lparr>total_miles = 330, deadhead_miles = 55,
      loaded_miles = 275,
      total_driving_time = 6,
      total_break_time = 0,
      total_load_unload_time = 3,
      total_time = 9,
      activities =
        [\<lparr>activity_type = LOADING, start_time = 0,
          duration = 3 / 2,
          miles = 0,
          act_notes = ''Loading cargo at origin''\<rparr>,
         \<lparr>activity_type = DRIVING, start_time = 3 / 2,
          duration = 6,
          miles = 330,
          act_notes = ''Deadhead + Loaded''\<rparr>,
         \<lparr>activity_type = UNLOADING, start_time = 15 / 2,
          duration = 3 / 2,
          miles = 0,
          act_notes = ''Unloading cargo at destination''\<rparr>]\<rparr>"

definition schedule_715_0_5 :: RouteMetrics where
  "schedule_715_0_5 =
     \<lparr>total_miles = 715, deadhead_miles = 0,
      loaded_miles = 715,
      total_driving_time = 13,
      total_break_time = 10,
      total_load_unload_time = 3,
      total_time = 26,
      activities =
        [\<lparr>activity_type = LOADING, start_time = 0,
          duration = 3 / 2,
          miles = 0,
          act_notes = ''Loading cargo at origin''\<rparr>,
         \<lparr>activity_type = DRIVING, start_time = 3 / 2,
          duration = 5,
          miles = 275,
          act_notes = ''Loaded haul''\<rparr>,
         \<lparr>activity_type = BREAK, start_time = 13 / 2,
          duration = 10,
          miles = 0,
          act_notes = ''Mandatory 10-hour rest''\<rparr>,
         \<lparr>activity_type = DRIVING, start_time = 33 / 2,
          duration = 8,
          miles = 440,
          act_notes = ''Loaded haul''\<rparr>,
         \<lparr>activity_type = UNLOADING, start_time = 49 / 2,
          duration = 3 / 2,
          miles = 0,
          act_notes = ''Unloading cargo at destination''\<rparr>]\<rparr>"

definition schedule_0_0_11 :: RouteMetrics where
  "schedule_0_0_11 =
     \<lparr>total_miles = 0, deadhead_miles = 0,
      loaded_miles = 0,
      total_driving_time = 0,
      total_break_time = 0,
      total_load_unload_time = 3,
      total_time = 3,
      activities =
        [\<lparr>activity_type = LOADING, start_time = 0,
          duration = 3 / 2,
          miles = 0,
          act_notes = ''Loading cargo at origin''\<rparr>,
         \<lparr>activity_type = UNLOADING, start_time = 3 / 2,
          duration = 3 / 2,
          miles = 0,
          act_notes = ''Unloading cargo at destination''\<rparr>]\<rparr>"

definition schedule_110_0_0 :: RouteMetrics where
  "schedule_110_0_0 =
     \<lparr>total_miles = 110, deadhead_miles = 0,
      loaded_miles = 110,
      total_driving_time = 2,
      total_break_time = 10,
      total_load_unload_time = 3,
      total_time = 15,
      activities =
        [\<lparr>activity_type = LOADING, start_time = 0,
          duration = 3 / 2,
          miles = 0,
          act_notes = ''Loading cargo at origin''\<rparr>,
         \<lparr>activity_type = DRIVING, start_time = 3 / 2,
          duration = 0,
          miles = 0,
          act_notes = ''Loaded haul''\<rparr>,
         \<lparr>activity_type = BREAK, start_time = 3 / 2,
          duration = 10,
          miles = 0,
          act_notes = ''Mandatory 10-hour rest''\<rparr>,
         \<lparr>activity_type = DRIVING, start_time = 23 / 2,
          duration = 2,
          miles = 110,
          act_notes = ''Loaded haul''\<rparr>,
         \<lparr>activity_type = UNLOADING, start_time = 27 / 2,
          duration = 3 / 2,
          miles = 0,
          act_notes = ''Unloading cargo at destination''\<rparr>]\<rparr>"






section \<open>Rounding to binary64\<close>

lemma round_half_even_of_int: "round_half_even (of_int n) = n"
  by (simp add: round_half_even_def)

lemma round_half_even_nonneg: "0 \<le> y \<Longrightarrow> 0 \<le> round_half_even y"
  by (auto simp: round_half_even_def Let_def)

lemma binary64_round_0 [simp]: "binary64_round 0 = 0"
  by (simp add: binary64_round_def)

lemma binary64_round_nonneg: "0 \<le> x \<Longrightarrow> 0 \<le> binary64_round x"
  by (auto simp: binary64_round_def Let_def intro!: mult_nonneg_nonneg round_half_even_nonneg)

lemma floor_log2_eq:
  assumes "0 < x" "2 powr of_int e \<le> x" "x < 2 powr (of_int e + 1)"
  shows "\<lfloor>log 2 x\<rfloor> = e"
proof -
  from assms have "of_int e \<le> log 2 x" by (simp add: le_log_iff)
  moreover from assms have "log 2 x < of_int e + 1" by (simp add: log_less_iff)
  ultimately show ?thesis by linarith
qed

text \<open>
  A value whose size lies between \<open>u * 2^52\<close> and \<open>u * 2^53\<close>, for a power of two \<open>u\<close>, is
  rounded to a multiple of \<open>u\<close>.
\<close>

lemma binary64_round_ulp:
  assumes u: "u = 2 powr of_int k"
    and lo: "u * 2 ^ 52 \<le> \<bar>x\<bar>" and hi: "\<bar>x\<bar> < u * 2 ^ 53"
    and n: "round_half_even (x / u) = n"
  shows "binary64_round x = u * of_int n"
proof -
  from lo u have pos: "0 < \<bar>x\<bar>"
    by (smt (verit) mult_pos_pos powr_gt_zero zero_less_power)
  have "u * 2 ^ 52 = 2 powr of_int (k + 52)" "u * 2 ^ 53 = 2 powr (of_int (k + 52) + 1)"
    by (simp_all add: u powr_add)
  with lo hi have "2 powr of_int (k + 52) \<le> \<bar>x\<bar>" "\<bar>x\<bar> < 2 powr (of_int (k + 52) + 1)"
    by simp_all
  then have "\<lfloor>log 2 \<bar>x\<bar>\<rfloor> = k + 52"
    using pos by (intro floor_log2_eq) simp_all
  with pos n show ?thesis
    by (simp add: binary64_round_def u)
qed

lemma binary64_round_ulp_pos:
  assumes "2 ^ k * 2 ^ 52 \<le> \<bar>x\<bar>" "\<bar>x\<bar> < 2 ^ k * 2 ^ 53"
    and "round_half_even (x / 2 ^ k) = n"
  shows "binary64_round x = 2 ^ k * of_int n"
  using binary64_round_ulp [of "2 ^ k" "int k" x n] assms by (simp add: powr_realpow)


text \<open>A float is rounded to itself.\<close>

lemma binary64_round_representable:
  assumes m: "\<bar>m\<bar> < 2 ^ 53"
  shows "binary64_round (of_int m * 2 powr of_int k) = of_int m * 2 powr of_int k"
proof (cases "m = 0")
  case True
  then show ?thesis by simp
next
  case False
  let ?x = "of_int m * 2 powr of_int k :: real"
  have ax: "\<bar>?x\<bar> = of_int \<bar>m\<bar> * 2 powr of_int k" by (simp add: abs_mult)
  from False have xpos: "0 < \<bar>?x\<bar>" by simp
  define e where "e = \<lfloor>log 2 \<bar>?x\<bar>\<rfloor>"
  have "of_int e \<le> log 2 \<bar>?x\<bar>" by (simp add: e_def)
  with xpos have lo: "2 powr of_int e \<le> \<bar>?x\<bar>" by (simp add: le_log_iff)
  from m have "of_int \<bar>m\<bar> < (2::real) ^ 53"
    by (metis of_int_less_iff of_int_numeral of_int_power)
  then have "\<bar>?x\<bar> < 2 ^ 53 * 2 powr of_int k"
    by (simp add: ax)
  also have "\<dots> = 2 powr (of_int (k + 53))"
    by (simp add: powr_add)
  finally have "(2::real) powr of_int e < 2 powr of_int (k + 53)" using lo by linarith
  then have "e < k + 53" by simp
  then have d: "0 \<le> k - (e - 52)" by simp
  define n where "n = nat (k - (e - 52))"
  have kn: "of_int k = of_int (e - 52) + real n"
    using d by (simp add: n_def)
  have "?x / 2 powr (of_int e - 52) = of_int m * 2 powr real n"
    using kn by (simp add: powr_add)
  also have "\<dots> = of_int (m * 2 ^ n)"
    by (simp add: powr_realpow)
  finally have q: "?x / 2 powr (of_int e - 52) = of_int (m * 2 ^ n)" .
  have "binary64_round ?x =
      2 powr (of_int e - 52) * of_int (round_half_even (?x / 2 powr (of_int e - 52)))"
    using False by (simp add: binary64_round_def e_def Let_def)
  also have "\<dots> = 2 powr (of_int e - 52) * of_int (m * 2 ^ n)"
    by (simp only: q round_half_even_of_int)
  also have "\<dots> = 2 powr (of_int e - 52) * (?x / 2 powr (of_int e - 52))"
    by (simp only: q)
  also have "\<dots> = ?x" by simp
  finally show ?thesis .
qed

lemma binary64_round_of_int: "\<bar>m\<bar> < 2 ^ 53 \<Longrightarrow> binary64_round (of_int m) = of_int m"
  using binary64_round_representable [of m 0] by simp

lemma binary64_round_numeral [simp]:
  "numeral w < (2::int) ^ 53 \<Longrightarrow> binary64_round (numeral w) = numeral w"
  using binary64_round_of_int [of "numeral w"] by simp

lemma binary64_round_half_numeral [simp]:
  "numeral w < (2::int) ^ 53 \<Longrightarrow> binary64_round (numeral w / 2) = numeral w / 2"
  using binary64_round_representable [of "numeral w" "- 1"] by (simp add: powr_minus field_simps)

lemma binary64_round_1 [simp]: "binary64_round 1 = 1"
  using binary64_round_of_int [of 1] by simp

section \<open>Reasoning about the loop\<close>

lemma contiguous_snoc:
  "contiguous rnd (xs @ [a]) \<longleftrightarrow>
     contiguous rnd xs \<and> (xs \<noteq> [] \<longrightarrow> end_time rnd (last xs) = start_time a)"
  by (induction rnd xs rule: contiguous.induct) auto

lemma contiguous_snoc2:
  "contiguous rnd (xs @ [a, b]) \<longleftrightarrow>
     contiguous rnd (xs @ [a]) \<and> end_time rnd a = start_time b"
  using contiguous_snoc [of rnd "xs @ [a]" b] by simp

lemma contiguous_nth:
  "contiguous rnd xs \<Longrightarrow> Suc i < length xs \<Longrightarrow> end_time rnd (xs ! i) = start_time (xs ! Suc i)"
proof (induction rnd xs arbitrary: i rule: contiguous.induct)
  case (3 rnd a b rest)
  then show ?case by (cases i) auto
qed simp_all

lemma durations_of_simps:
  "durations_of rnd k [] = 0"
  "durations_of rnd k (xs @ [a]) =
     (if activity_type a = k then fadd rnd (durations_of rnd k xs) (duration a)
      else durations_of rnd k xs)"
  "durations_of rnd k (xs @ [a, b]) =
     (if activity_type b = k
      then fadd rnd (if activity_type a = k then fadd rnd (durations_of rnd k xs) (duration a)
                     else durations_of rnd k xs) (duration b)
      else if activity_type a = k then fadd rnd (durations_of rnd k xs) (duration a)
           else durations_of rnd k xs)"
  by (simp_all add: durations_of_def)

lemma miles_of_simps:
  "miles_of rnd k [] = 0"
  "miles_of rnd k (xs @ [a]) =
     (if activity_type a = k then fadd rnd (miles_of rnd k xs) (miles a)
      else miles_of rnd k xs)"
  "miles_of rnd k (xs @ [a, b]) =
     (if activity_type b = k
      then fadd rnd (if activity_type a = k then fadd rnd (miles_of rnd k xs) (miles a)
                     else miles_of rnd k xs) (miles b)
      else if activity_type a = k then fadd rnd (miles_of rnd k xs) (miles a)
           else miles_of rnd k xs)"
  by (simp_all add: miles_of_def)

lemma drive_loop_invariant:
  assumes run: "drive_loop rnd self dm st = Some (Inr st')"
    and init: "P st"
    and step: "\<And>s s'. P s \<Longrightarrow> miles_remaining s > 0 \<Longrightarrow> loop_body rnd self dm s = Inr s' \<Longrightarrow> P s'"
  shows "P st' \<and> \<not> miles_remaining st' > 0"
proof -
  define Q where "Q = (\<lambda>r' c d s (r :: error + locals).
     r' = rnd \<longrightarrow> c = self \<longrightarrow> d = dm \<longrightarrow> P s \<longrightarrow>
       (\<forall>t. r = Inr t \<longrightarrow> P t \<and> \<not> miles_remaining t > 0))"
  have "Q rnd self dm st (Inr st')"
  proof (rule drive_loop.raw_induct [where P = Q, OF _ run])
    fix f r' c d s r
    assume IH: "\<And>r' c d s r. f r' c d s = Some r \<Longrightarrow> Q r' c d s r"
      and body: "(if 0 < miles_remaining s
         then case loop_body r' c d s of Inl e \<Rightarrow> Some (Inl e) | Inr s' \<Rightarrow> f r' c d s'
         else Some (Inr s)) = Some r"
    show "Q r' c d s r"
      unfolding Q_def
    proof (intro impI allI)
      fix t
      assume r': "r' = rnd" and c: "c = self" and d: "d = dm" and Ps: "P s" and r: "r = Inr t"
      show "P t \<and> \<not> miles_remaining t > 0"
      proof (cases "0 < miles_remaining s")
        case False
        with body r Ps show ?thesis by simp
      next
        case True
        with body r obtain s' where b: "loop_body r' c d s = Inr s'"
          and f: "f r' c d s' = Some (Inr t)"
          by (auto split: sum.splits)
        from step [OF Ps True] b r' c d have "P s'" by simp
        with IH [OF f] r' c d show ?thesis by (simp add: Q_def)
      qed
    qed
  qed
  with init show ?thesis by (simp add: Q_def)
qed

lemma drive_loop_error:
  assumes run: "drive_loop rnd self dm st = Some (Inl e)"
  shows "e = ZeroDivisionError \<and> speed_mph self = 0"
proof -
  define Q where "Q = (\<lambda>(r' :: real \<Rightarrow> real) (c :: RouteMetricsCalculator) (d :: real)
       (s :: locals) (r :: error + locals).
     \<forall>e. r = Inl e \<longrightarrow> e = ZeroDivisionError \<and> speed_mph c = 0)"
  have "Q rnd self dm st (Inl e)"
  proof (rule drive_loop.raw_induct [where P = Q, OF _ run])
    fix f r' c d s r
    assume IH: "\<And>r' c d s r. f r' c d s = Some r \<Longrightarrow> Q r' c d s r"
      and body: "(if 0 < miles_remaining s
         then case loop_body r' c d s of Inl e \<Rightarrow> Some (Inl e) | Inr s' \<Rightarrow> f r' c d s'
         else Some (Inr s)) = Some r"
    show "Q r' c d s r"
      unfolding Q_def
    proof (intro impI allI)
      fix e'
      assume r: "r = Inl e'"
      with body have pos: "0 < miles_remaining s" by (auto split: if_splits)
      show "e' = ZeroDivisionError \<and> speed_mph c = 0"
      proof (cases "loop_body r' c d s")
        case (Inl x)
        with body pos r have "x = e'" by simp
        with Inl show ?thesis
          by (auto simp: loop_body_def Let_def split: if_splits)
      next
        case (Inr s')
        with body pos r have "f r' c d s' = Some (Inl e')" by simp
        from IH [OF this] show ?thesis by (simp add: Q_def)
      qed
    qed
  qed
  then show ?thesis by (simp add: Q_def)
qed

lemma drive_loop_no_miles:
  "\<not> 0 < miles_remaining st \<Longrightarrow> drive_loop rnd self dm st = Some (Inr st)"
  by (simp add: drive_loop.simps)

lemma drive_loop_step:
  "0 < miles_remaining st \<Longrightarrow> loop_body rnd self dm st = Inr st' \<Longrightarrow>
   drive_loop rnd self dm st = drive_loop rnd self dm st'"
  by (subst drive_loop.simps) simp

lemma loop_body_Inr:
  "speed_mph self \<noteq> 0 \<Longrightarrow> \<exists>st'. loop_body rnd self dm st = Inr st'"
  by (simp add: loop_body_def Let_def)

lemma loop_body_appends:
  "loop_body rnd self dm s = Inr s' \<Longrightarrow> \<exists>more. lv_activities s' = lv_activities s @ more"
  by (auto simp: loop_body_def Let_def split: if_splits)

lemma drive_loop_prefix:
  assumes "drive_loop rnd self dm s = Some (Inr s')"
  shows "\<exists>more. lv_activities s' = lv_activities s @ more"
proof -
  have "(\<exists>more. lv_activities s' = lv_activities s @ more) \<and> \<not> 0 < miles_remaining s'"
  proof (rule drive_loop_invariant [OF assms, of "\<lambda>t. \<exists>more. lv_activities t = lv_activities s @ more"])
    show "\<exists>more. lv_activities s = lv_activities s @ more" by simp
  next
    fix t t'
    assume "\<exists>more. lv_activities t = lv_activities s @ more" "loop_body rnd self dm t = Inr t'"
    then show "\<exists>more. lv_activities t' = lv_activities s @ more"
      by (auto dest!: loop_body_appends)
  qed
  then show ?thesis ..
qed

section \<open>The whole of \<open>calculate\<close>\<close>

lemma calculate_valid:
  "valid_input self tm dm rh \<Longrightarrow>
   calculate rnd self tm dm rh =
     (case drive_loop rnd self dm (locals_after_loading rnd self tm rh) of
        None \<Rightarrow> None
      | Some (Inl e) \<Rightarrow> Some (Inl e)
      | Some (Inr st) \<Rightarrow> Some (Inr (metrics_of rnd self tm dm st)))"
  by (simp add: calculate_def valid_input_def locals_after_loading_def loading_activity_def
      metrics_of_def unloading_activity_def Let_def split: option.splits sum.splits)

lemma calculate_invalid:
  "\<not> valid_input self tm dm rh \<Longrightarrow>
   \<exists>msg. calculate rnd self tm dm rh = Some (Inl (ValueError msg))"
  by (auto simp: calculate_def valid_input_def)

lemma calculate_Inr_iff:
  "calculate rnd self tm dm rh = Some (Inr m) \<longleftrightarrow>
     valid_input self tm dm rh \<and>
     (\<exists>st. drive_loop rnd self dm (locals_after_loading rnd self tm rh) = Some (Inr st) \<and>
           m = metrics_of rnd self tm dm st)"
proof (cases "valid_input self tm dm rh")
  case True
  then show ?thesis
    by (auto simp: calculate_valid split: option.splits sum.splits)
next
  case False
  from calculate_invalid [OF this, of rnd] show ?thesis using False by auto
qed

lemma calculate_no_ValueError:
  assumes "valid_input self tm dm rh"
  shows "calculate rnd self tm dm rh \<noteq> Some (Inl (ValueError msg))"
proof
  assume "calculate rnd self tm dm rh = Some (Inl (ValueError msg))"
  with assms have
    "drive_loop rnd self dm (locals_after_loading rnd self tm rh) = Some (Inl (ValueError msg))"
    by (simp add: calculate_valid split: option.splits sum.splits)
  from drive_loop_error [OF this] show False by simp
qed

section \<open>Loop invariants\<close>

lemma timeline_ok_step:
  "timeline_ok rnd s \<Longrightarrow> loop_body rnd self dm s = Inr s' \<Longrightarrow> timeline_ok rnd s'"
  by (auto simp: timeline_ok_def loop_body_def Let_def contiguous_snoc contiguous_snoc2
      end_time_def split: if_splits)

lemma totals_ok_step:
  "totals_ok rnd s \<Longrightarrow> loop_body rnd self dm s = Inr s' \<Longrightarrow> totals_ok rnd s'"
  by (auto simp: totals_ok_def loop_body_def Let_def durations_of_simps split: if_splits)

lemma miles_ok_step:
  "miles_ok rnd s \<Longrightarrow> loop_body rnd self dm s = Inr s' \<Longrightarrow> miles_ok rnd s'"
  by (auto simp: miles_ok_def loop_body_def Let_def miles_of_simps split: if_splits)

lemma shape_ok_step:
  "shape_ok self s \<Longrightarrow> loop_body rnd self dm s = Inr s' \<Longrightarrow> shape_ok self s'"
  by (auto simp: shape_ok_def loop_body_def Let_def split: if_splits list.splits)

lemma timeline_ok_start: "timeline_ok rnd (locals_after_loading rnd self tm rh)"
  by (simp add: timeline_ok_def locals_after_loading_def loading_activity_def end_time_def)

lemma totals_ok_start: "totals_ok rnd (locals_after_loading rnd self tm rh)"
  by (simp add: totals_ok_def locals_after_loading_def loading_activity_def durations_of_def)

lemma miles_ok_start: "miles_ok rnd (locals_after_loading rnd self tm rh)"
  by (simp add: miles_ok_def locals_after_loading_def loading_activity_def miles_of_def)

lemma shape_ok_start: "shape_ok self (locals_after_loading rnd self tm rh)"
  by (simp add: shape_ok_def locals_after_loading_def)

lemma calculate_InrD:
  assumes "calculate rnd self tm dm rh = Some (Inr m)"
  obtains st where "valid_input self tm dm rh"
    and "drive_loop rnd self dm (locals_after_loading rnd self tm rh) = Some (Inr st)"
    and "m = metrics_of rnd self tm dm st"
    and "timeline_ok rnd st" and "totals_ok rnd st" and "miles_ok rnd st" and "shape_ok self st"
    and "\<not> 0 < miles_remaining st"
proof -
  from assms obtain st where v: "valid_input self tm dm rh"
    and run: "drive_loop rnd self dm (locals_after_loading rnd self tm rh) = Some (Inr st)"
    and m: "m = metrics_of rnd self tm dm st"
    by (auto simp: calculate_Inr_iff)
  from drive_loop_invariant [OF run, of "timeline_ok rnd"] timeline_ok_start timeline_ok_step
  have 1: "timeline_ok rnd st" and stop: "\<not> 0 < miles_remaining st" by blast+
  from drive_loop_invariant [OF run, of "totals_ok rnd"] totals_ok_start totals_ok_step
  have 2: "totals_ok rnd st" by blast
  from drive_loop_invariant [OF run, of "miles_ok rnd"] miles_ok_start miles_ok_step
  have 3: "miles_ok rnd st" by blast
  from drive_loop_invariant [OF run, of "shape_ok self"] shape_ok_start shape_ok_step
  have 4: "shape_ok self st" by blast
  from v run m 1 2 3 4 stop show thesis by (rule that)
qed

section \<open>Claims about the returned metrics\<close>

text \<open>
  C7. For every valid input, the record returned by \<open>calculate\<close> has
  \<open>loaded_miles = total_miles - deadhead_miles\<close> (the code's subtraction), gives back the
  \<open>total_miles\<close> and \<open>deadhead_miles\<close> it was called with, and has \<open>loaded_miles \<ge> 0\<close>, the
  rounding of a number that is not negative being not negative. A call that returns a
  record had a valid input.
\<close>

theorem calculate_loaded_miles:
  "(calculate rnd self tm dm rh = Some (Inr m) \<longrightarrow>
      valid_input self tm dm rh \<and>
      loaded_miles m = fsub rnd tm dm \<and> total_miles m = tm \<and> deadhead_miles m = dm) \<and>
   (calculate rnd self tm dm rh = Some (Inr m) \<and> (\<forall>x. 0 \<le> x \<longrightarrow> 0 \<le> rnd x) \<longrightarrow>
      0 \<le> loaded_miles m)"
proof (intro conjI impI)
  assume "calculate rnd self tm dm rh = Some (Inr m)"
  then obtain st where "valid_input self tm dm rh" "m = metrics_of rnd self tm dm st"
    by (rule calculate_InrD)
  then show "valid_input self tm dm rh" "loaded_miles m = fsub rnd tm dm" "total_miles m = tm"
    "deadhead_miles m = dm"
    by (simp_all add: metrics_of_def)
next
  assume a: "calculate rnd self tm dm rh = Some (Inr m) \<and> (\<forall>x. 0 \<le> x \<longrightarrow> 0 \<le> rnd x)"
  then have "calculate rnd self tm dm rh = Some (Inr m)" ..
  then obtain st where "valid_input self tm dm rh" "m = metrics_of rnd self tm dm st"
    by (rule calculate_InrD)
  with a show "0 \<le> loaded_miles m"
    by (simp add: metrics_of_def valid_input_def fsub_def)
qed

text \<open>
  C1. For every valid input the activity list returned by \<open>calculate\<close> is a gapless
  timeline: the first activity starts at time 0 and every activity ends exactly where the
  next one starts (\<open>end_time\<close> being the code's \<open>start_time + duration\<close>).
\<close>

theorem calculate_timeline_contiguous:
  "calculate rnd self tm dm rh = Some (Inr m) \<longrightarrow>
     activities m \<noteq> [] \<and> start_time (activities m ! 0) = 0 \<and>
     (\<forall>i. Suc i < length (activities m) \<longrightarrow>
          end_time rnd (activities m ! i) = start_time (activities m ! Suc i))"
proof (intro conjI impI)
  assume "calculate rnd self tm dm rh = Some (Inr m)"
  then obtain st where m: "m = metrics_of rnd self tm dm st" and ok: "timeline_ok rnd st"
    by (rule calculate_InrD)
  let ?acts = "lv_activities st"
  let ?u = "unloading_activity self (current_time st)"
  from m have acts: "activities m = ?acts @ [?u]" by (simp add: metrics_of_def)
  from ok have ne: "?acts \<noteq> []" and c: "contiguous rnd ?acts"
    and e: "end_time rnd (last ?acts) = current_time st" and z: "start_time (hd ?acts) = 0"
    by (simp_all add: timeline_ok_def)
  show "activities m \<noteq> []" by (simp add: acts)
  from ne z show "start_time (activities m ! 0) = 0"
    by (simp add: acts nth_append hd_conv_nth)
  from c ne e have "contiguous rnd (activities m)"
    by (simp add: acts contiguous_snoc unloading_activity_def)
  then show "\<forall>i. Suc i < length (activities m) \<longrightarrow>
      end_time rnd (activities m ! i) = start_time (activities m ! Suc i)"
    by (simp add: contiguous_nth)
qed

text \<open>
  C2. For every valid input, in the record returned by \<open>calculate\<close>:
  \<open>total_driving_time\<close> is the sum of the durations of the Driving activities,
  \<open>total_break_time\<close> is the sum of the durations of the Break activities,
  \<open>total_load_unload_time\<close> is \<open>loading_duration + unloading_duration\<close> whatever the trip,
  and \<open>total_time\<close> is the end time of the last activity and also the sum of all
  durations. The sums run from left to right, starting from 0, with the code's addition.
\<close>

theorem calculate_totals:
  "calculate rnd self tm dm rh = Some (Inr m) \<longrightarrow>
     total_driving_time m = durations_of rnd DRIVING (activities m) \<and>
     total_break_time m = durations_of rnd BREAK (activities m) \<and>
     total_load_unload_time m = fadd rnd (loading_duration self) (unloading_duration self) \<and>
     total_time m = end_time rnd (last (activities m)) \<and>
     total_time m = foldl (fadd rnd) 0 (map duration (activities m))"
proof (intro conjI impI)
  assume "calculate rnd self tm dm rh = Some (Inr m)"
  then obtain st where m: "m = metrics_of rnd self tm dm st" and ok: "totals_ok rnd st"
    by (rule calculate_InrD)
  from m ok show "total_driving_time m = durations_of rnd DRIVING (activities m)"
    by (simp add: metrics_of_def totals_ok_def durations_of_simps unloading_activity_def)
  from m ok show "total_break_time m = durations_of rnd BREAK (activities m)"
    by (simp add: metrics_of_def totals_ok_def durations_of_simps unloading_activity_def)
  from m show "total_load_unload_time m =
      fadd rnd (loading_duration self) (unloading_duration self)"
    by (simp add: metrics_of_def)
  from m show "total_time m = end_time rnd (last (activities m))"
    by (simp add: metrics_of_def unloading_activity_def end_time_def)
  from m ok show "total_time m = foldl (fadd rnd) 0 (map duration (activities m))"
    by (simp add: metrics_of_def totals_ok_def unloading_activity_def)
qed

section \<open>Claims about the shape of the schedule\<close>

text \<open>
  C8. For every valid input the first activity of the returned schedule is Loading, with
  the note "Loading cargo at origin", and the last one is Unloading, with the note
  "Unloading cargo at destination". With \<open>total_miles = 0\<close> the call returns whatever the
  configuration, the schedule is exactly these two activities, none of them Driving, and
  \<open>total_driving_time\<close> is 0.
\<close>

theorem calculate_first_and_last:
  "(calculate rnd self tm dm rh = Some (Inr m) \<longrightarrow>
      activities m \<noteq> [] \<and>
      activity_type (activities m ! 0) = LOADING \<and>
      act_notes (activities m ! 0) = ''Loading cargo at origin'' \<and>
      activity_type (last (activities m)) = UNLOADING \<and>
      act_notes (last (activities m)) = ''Unloading cargo at destination'') \<and>
   (valid_input self 0 dm rh \<longrightarrow>
      (\<exists>m0. calculate rnd self 0 dm rh = Some (Inr m0) \<and>
         activities m0 =
           [\<lparr>activity_type = LOADING, start_time = 0, duration = loading_duration self,
             miles = 0, act_notes = ''Loading cargo at origin''\<rparr>,
            \<lparr>activity_type = UNLOADING, start_time = fadd rnd 0 (loading_duration self),
             duration = unloading_duration self, miles = 0,
             act_notes = ''Unloading cargo at destination''\<rparr>] \<and>
         filter (\<lambda>a. activity_type a = DRIVING) (activities m0) = [] \<and>
         total_driving_time m0 = 0))"
proof (intro conjI impI)
  assume "calculate rnd self tm dm rh = Some (Inr m)"
  then obtain st where m: "m = metrics_of rnd self tm dm st" and ok: "shape_ok self st"
    by (rule calculate_InrD)
  from ok obtain rest where acts: "lv_activities st = loading_activity self # rest"
    by (auto simp: shape_ok_def split: list.splits)
  from m show "activities m \<noteq> []" by (simp add: metrics_of_def)
  from m acts show "activity_type (activities m ! 0) = LOADING"
    "act_notes (activities m ! 0) = ''Loading cargo at origin''"
    by (simp_all add: metrics_of_def loading_activity_def)
  from m show "activity_type (last (activities m)) = UNLOADING"
    "act_notes (last (activities m)) = ''Unloading cargo at destination''"
    by (simp_all add: metrics_of_def unloading_activity_def)
next
  assume v: "valid_input self 0 dm rh"
  have "drive_loop rnd self dm (locals_after_loading rnd self 0 rh) =
      Some (Inr (locals_after_loading rnd self 0 rh))"
    by (rule drive_loop_no_miles) (simp add: locals_after_loading_def)
  with v have "calculate rnd self 0 dm rh =
      Some (Inr (metrics_of rnd self 0 dm (locals_after_loading rnd self 0 rh)))"
    by (simp add: calculate_valid)
  then show "\<exists>m0. calculate rnd self 0 dm rh = Some (Inr m0) \<and>
         activities m0 =
           [\<lparr>activity_type = LOADING, start_time = 0, duration = loading_duration self,
             miles = 0, act_notes = ''Loading cargo at origin''\<rparr>,
            \<lparr>activity_type = UNLOADING, start_time = fadd rnd 0 (loading_duration self),
             duration = unloading_duration self, miles = 0,
             act_notes = ''Unloading cargo at destination''\<rparr>] \<and>
         filter (\<lambda>a. activity_type a = DRIVING) (activities m0) = [] \<and>
         total_driving_time m0 = 0"
    by (simp add: metrics_of_def locals_after_loading_def loading_activity_def
        unloading_activity_def)
qed

text \<open>
  C9. When \<open>remaining_hours = 0\<close> and \<open>total_miles > 0\<close> (a valid input), the first Driving
  activity of the schedule, right after Loading, has 0 miles and 0 duration, and the
  activity after it is a Break that starts where it ends: a zero-length Driving segment
  precedes all real driving. (Of the arithmetic this uses that 0 and \<open>total_miles\<close> are
  floats, which rounding leaves as they are.)
\<close>

theorem calculate_zero_length_first_segment:
  "calculate rnd self tm dm 0 = Some (Inr m) \<and> 0 < tm \<and> rnd 0 = 0 \<and> rnd tm = tm \<longrightarrow>
     2 < length (activities m) \<and>
     activity_type (activities m ! 0) = LOADING \<and>
     activity_type (activities m ! 1) = DRIVING \<and>
     miles (activities m ! 1) = 0 \<and> duration (activities m ! 1) = 0 \<and>
     activity_type (activities m ! 2) = BREAK \<and>
     start_time (activities m ! 2) = end_time rnd (activities m ! 1) \<and>
     duration (activities m ! 2) = break_duration self"
proof (intro conjI impI)
  assume a: "calculate rnd self tm dm 0 = Some (Inr m) \<and> 0 < tm \<and> rnd 0 = 0 \<and> rnd tm = tm"
  then have pos: "0 < tm" and r0: "rnd 0 = 0" and rt: "rnd tm = tm" by simp_all
  from a have "calculate rnd self tm dm 0 = Some (Inr m)" ..
  then obtain st where m: "m = metrics_of rnd self tm dm st"
    and run: "drive_loop rnd self dm (locals_after_loading rnd self tm 0) = Some (Inr st)"
    by (rule calculate_InrD)
  let ?st0 = "locals_after_loading rnd self tm 0"
  let ?t = "fadd rnd (fadd rnd 0 (loading_duration self)) 0"
  have mr0: "0 < miles_remaining ?st0" using pos by (simp add: locals_after_loading_def)
  have speed: "speed_mph self \<noteq> 0"
  proof
    assume "speed_mph self = 0"
    then have "loop_body rnd self dm ?st0 = Inl ZeroDivisionError"
      by (simp add: loop_body_def Let_def)
    with mr0 have "drive_loop rnd self dm ?st0 = Some (Inl ZeroDivisionError)"
      by (subst drive_loop.simps) simp
    with run show False by simp
  qed
  obtain st1 where body: "loop_body rnd self dm ?st0 = Inr st1"
    and acts1: "\<exists>nt. lv_activities st1 =
      [loading_activity self,
       \<lparr>activity_type = DRIVING, start_time = fadd rnd 0 (loading_duration self),
        duration = 0, miles = 0, act_notes = nt\<rparr>,
       \<lparr>activity_type = BREAK, start_time = ?t,
        duration = break_duration self, miles = 0,
        act_notes = ''Mandatory 10-hour rest''\<rparr>]"
    using speed pos r0 rt
    by (auto simp: loop_body_def Let_def locals_after_loading_def min_def
        fadd_def fsub_def fmul_def fdiv_def)
  from drive_loop_step [OF mr0 body] run have "drive_loop rnd self dm st1 = Some (Inr st)"
    by simp
  from drive_loop_prefix [OF this] obtain more
    where "lv_activities st = lv_activities st1 @ more" ..
  with acts1 m obtain nt where acts: "activities m =
      [loading_activity self,
       \<lparr>activity_type = DRIVING, start_time = fadd rnd 0 (loading_duration self),
        duration = 0, miles = 0, act_notes = nt\<rparr>,
       \<lparr>activity_type = BREAK, start_time = ?t,
        duration = break_duration self, miles = 0,
        act_notes = ''Mandatory 10-hour rest''\<rparr>] @ more @
      [unloading_activity self (current_time st)]"
    by (auto simp: metrics_of_def)
  show "2 < length (activities m)" by (simp add: acts)
  show "activity_type (activities m ! 0) = LOADING" by (simp add: acts loading_activity_def)
  show "activity_type (activities m ! 1) = DRIVING" by (simp add: acts)
  show "miles (activities m ! 1) = 0" by (simp add: acts)
  show "duration (activities m ! 1) = 0" by (simp add: acts)
  show "activity_type (activities m ! 2) = BREAK" by (simp add: acts numeral_2_eq_2)
  show "start_time (activities m ! 2) = end_time rnd (activities m ! 1)"
    by (simp add: acts numeral_2_eq_2 end_time_def)
  show "duration (activities m ! 2) = break_duration self" by (simp add: acts numeral_2_eq_2)
qed

section \<open>Claims about validation\<close>

text \<open>
  C3. \<open>calculate\<close> raises an invalid-input error (\<open>ValueError\<close>) exactly when
  \<open>total_miles < 0\<close>, or \<open>deadhead_miles < 0\<close>, or \<open>deadhead_miles > total_miles\<close>, or
  \<open>remaining_hours < 0\<close>, or \<open>remaining_hours > max_driving_hours\<close>. The checks run in this
  order, so the first one violated gives the error; the error is the whole result, with
  no activities and no partial record (an \<open>Inl\<close> carries none). An input that violates
  none of the five never gives an invalid-input error.
\<close>

theorem calculate_validation:
  "(tm < 0 \<longrightarrow> calculate rnd self tm dm rh = Some (Inl (ValueError Total_miles_negative))) \<and>
   (0 \<le> tm \<and> dm < 0 \<longrightarrow>
      calculate rnd self tm dm rh = Some (Inl (ValueError Deadhead_miles_negative))) \<and>
   (0 \<le> tm \<and> 0 \<le> dm \<and> tm < dm \<longrightarrow>
      calculate rnd self tm dm rh = Some (Inl (ValueError Deadhead_miles_exceed_total))) \<and>
   (0 \<le> tm \<and> 0 \<le> dm \<and> dm \<le> tm \<and> rh < 0 \<longrightarrow>
      calculate rnd self tm dm rh = Some (Inl (ValueError Remaining_hours_negative))) \<and>
   (0 \<le> tm \<and> 0 \<le> dm \<and> dm \<le> tm \<and> 0 \<le> rh \<and> max_driving_hours self < rh \<longrightarrow>
      calculate rnd self tm dm rh =
        Some (Inl (ValueError (Remaining_hours_exceed_max (max_driving_hours self))))) \<and>
   ((\<exists>msg. calculate rnd self tm dm rh = Some (Inl (ValueError msg))) \<longleftrightarrow>
      tm < 0 \<or> dm < 0 \<or> tm < dm \<or> rh < 0 \<or> max_driving_hours self < rh)"
proof (intro conjI impI)
  show "(\<exists>msg. calculate rnd self tm dm rh = Some (Inl (ValueError msg))) \<longleftrightarrow>
      tm < 0 \<or> dm < 0 \<or> tm < dm \<or> rh < 0 \<or> max_driving_hours self < rh"
  proof (cases "valid_input self tm dm rh")
    case True
    then have "\<not> (tm < 0 \<or> dm < 0 \<or> tm < dm \<or> rh < 0 \<or> max_driving_hours self < rh)"
      by (auto simp: valid_input_def)
    with calculate_no_ValueError [OF True] show ?thesis by blast
  next
    case False
    then have "tm < 0 \<or> dm < 0 \<or> tm < dm \<or> rh < 0 \<or> max_driving_hours self < rh"
      by (auto simp: valid_input_def)
    with calculate_invalid [OF False] show ?thesis by blast
  qed
qed (simp_all add: calculate_def)

section \<open>Claims about one pass of the loop\<close>

text \<open>
  C6. Each pass of the loop emits its driving segment as one Driving activity, whole (it
  is never split where the deadhead miles end), and the note of that activity comes from
  comparing the miles driven so far with \<open>deadhead_miles\<close>: "Deadhead (empty)" when
  \<open>miles_driven < deadhead_miles\<close> and the segment fits into the deadhead miles still to
  drive, "Deadhead + Loaded" when \<open>miles_driven < deadhead_miles\<close> and the segment goes
  past them, and "Loaded haul" when \<open>miles_driven \<ge> deadhead_miles\<close>.
\<close>

theorem loop_body_segment_note:
  "loop_body rnd self dm st = Inr st' \<longrightarrow>
     (\<exists>drv more.
        lv_activities st' = lv_activities st @ drv # more \<and>
        filter (\<lambda>a. activity_type a = DRIVING) more = [] \<and>
        activity_type drv = DRIVING \<and>
        start_time drv = current_time st \<and>
        miles drv = min (miles_remaining st) (fmul rnd (hours_until_break st) (speed_mph self)) \<and>
        duration drv = fdiv rnd (miles drv) (speed_mph self) \<and>
        miles_driven st' = fadd rnd (miles_driven st) (miles drv) \<and>
        (miles_driven st < dm \<and> miles drv \<le> fsub rnd dm (miles_driven st) \<longrightarrow>
           act_notes drv = ''Deadhead (empty)'') \<and>
        (miles_driven st < dm \<and> fsub rnd dm (miles_driven st) < miles drv \<longrightarrow>
           act_notes drv = ''Deadhead + Loaded'') \<and>
        (dm \<le> miles_driven st \<longrightarrow> act_notes drv = ''Loaded haul''))"
proof
  assume body: "loop_body rnd self dm st = Inr st'"
  define seg where
    "seg = min (miles_remaining st) (fmul rnd (hours_until_break st) (speed_mph self))"
  define drv where "drv =
    \<lparr>activity_type = DRIVING, start_time = current_time st,
     duration = fdiv rnd seg (speed_mph self), miles = seg,
     act_notes = (if miles_driven st < dm
                  then if seg \<le> fsub rnd dm (miles_driven st) then ''Deadhead (empty)''
                       else ''Deadhead + Loaded''
                  else ''Loaded haul'')\<rparr>"
  define brk where "brk =
    \<lparr>activity_type = BREAK,
     start_time = fadd rnd (current_time st) (fdiv rnd seg (speed_mph self)),
     duration = break_duration self, miles = 0, act_notes = ''Mandatory 10-hour rest''\<rparr>"
  from body have acts: "lv_activities st' = lv_activities st @ drv # [] \<or>
      lv_activities st' = lv_activities st @ drv # [brk]"
    and md: "miles_driven st' = fadd rnd (miles_driven st) seg"
    by (auto simp: loop_body_def Let_def seg_def drv_def brk_def split: if_splits)
  then obtain more where more: "lv_activities st' = lv_activities st @ drv # more"
    and nodrv: "filter (\<lambda>a. activity_type a = DRIVING) more = []"
    by (auto simp: brk_def)
  have ms: "miles drv = seg" by (simp add: drv_def)
  have "activity_type drv = DRIVING" "start_time drv = current_time st"
    "duration drv = fdiv rnd seg (speed_mph self)"
    "miles_driven st < dm \<and> seg \<le> fsub rnd dm (miles_driven st) \<longrightarrow>
       act_notes drv = ''Deadhead (empty)''"
    "miles_driven st < dm \<and> fsub rnd dm (miles_driven st) < seg \<longrightarrow>
       act_notes drv = ''Deadhead + Loaded''"
    "dm \<le> miles_driven st \<longrightarrow> act_notes drv = ''Loaded haul''"
    by (auto simp: drv_def)
  with more nodrv md ms show "\<exists>drv more.
        lv_activities st' = lv_activities st @ drv # more \<and>
        filter (\<lambda>a. activity_type a = DRIVING) more = [] \<and>
        activity_type drv = DRIVING \<and>
        start_time drv = current_time st \<and>
        miles drv = min (miles_remaining st) (fmul rnd (hours_until_break st) (speed_mph self)) \<and>
        duration drv = fdiv rnd (miles drv) (speed_mph self) \<and>
        miles_driven st' = fadd rnd (miles_driven st) (miles drv) \<and>
        (miles_driven st < dm \<and> miles drv \<le> fsub rnd dm (miles_driven st) \<longrightarrow>
           act_notes drv = ''Deadhead (empty)'') \<and>
        (miles_driven st < dm \<and> fsub rnd dm (miles_driven st) < miles drv \<longrightarrow>
           act_notes drv = ''Deadhead + Loaded'') \<and>
        (dm \<le> miles_driven st \<longrightarrow> act_notes drv = ''Loaded haul'')"
    by (intro exI [of _ drv] exI [of _ more]) (simp add: seg_def)
qed



section \<open>Runs of \<open>calculate\<close> on concrete routes\<close>



































lemma default_calculator_simps:
  "speed_mph default_calculator = 55" "max_driving_hours default_calculator = 11"
  "break_duration default_calculator = 10" "loading_duration default_calculator = 3 / 2"
  "unloading_duration default_calculator = 3 / 2"
  by (simp_all add: default_calculator_def)

lemmas float_ops = fadd_def fsub_def fmul_def fdiv_def

lemma calculate_715_110_11:
  "calculate binary64_round default_calculator 715 110 11 = Some (Inr schedule_715_110_11)"
  by (simp add: calculate_def default_calculator_def drive_loop.simps loop_body_def Let_def
      float_ops schedule_715_110_11_def)

lemma calculate_330_55_11:
  "calculate binary64_round default_calculator 330 55 11 = Some (Inr schedule_330_55_11)"
  by (simp add: calculate_def default_calculator_def drive_loop.simps loop_body_def Let_def
      float_ops schedule_330_55_11_def)

lemma calculate_715_0_5:
  "calculate binary64_round default_calculator 715 0 5 = Some (Inr schedule_715_0_5)"
  by (simp add: calculate_def default_calculator_def drive_loop.simps loop_body_def Let_def
      float_ops schedule_715_0_5_def)

lemma calculate_0_0_11:
  "calculate binary64_round default_calculator 0 0 11 = Some (Inr schedule_0_0_11)"
  by (simp add: calculate_def default_calculator_def drive_loop.simps loop_body_def Let_def
      float_ops schedule_0_0_11_def)

lemma calculate_110_0_0:
  "calculate binary64_round default_calculator 110 0 0 = Some (Inr schedule_110_0_0)"
  by (simp add: calculate_def default_calculator_def drive_loop.simps loop_body_def Let_def
      float_ops schedule_110_0_0_def)



section \<open>The claims on concrete routes\<close>

theorem calculate_loaded_miles_witness:
  "calculate binary64_round default_calculator 330 55 11 = Some (Inr schedule_330_55_11) \<and>
   valid_input default_calculator 330 55 11 \<and>
   loaded_miles schedule_330_55_11 = fsub binary64_round 330 55 \<and>
   loaded_miles schedule_330_55_11 = 275 \<and>
   total_miles schedule_330_55_11 = 330 \<and> deadhead_miles schedule_330_55_11 = 55 \<and>
   0 \<le> loaded_miles schedule_330_55_11"
proof -
  have nn: "\<forall>x. 0 \<le> x \<longrightarrow> 0 \<le> binary64_round x"
    by (simp add: binary64_round_nonneg)
  have l: "loaded_miles schedule_330_55_11 = 275"
    by (simp add: schedule_330_55_11_def)
  from calculate_loaded_miles [of binary64_round default_calculator 330 55 11 schedule_330_55_11]
    calculate_330_55_11 nn l
  show ?thesis by simp
qed

theorem calculate_timeline_contiguous_witness:
  "calculate binary64_round default_calculator 715 110 11 = Some (Inr schedule_715_110_11) \<and>
   start_time (activities schedule_715_110_11 ! 0) = 0 \<and>
   end_time binary64_round (activities schedule_715_110_11 ! 0) =
     start_time (activities schedule_715_110_11 ! 1) \<and>
   end_time binary64_round (activities schedule_715_110_11 ! 1) =
     start_time (activities schedule_715_110_11 ! 2) \<and>
   end_time binary64_round (activities schedule_715_110_11 ! 2) =
     start_time (activities schedule_715_110_11 ! 3) \<and>
   end_time binary64_round (activities schedule_715_110_11 ! 3) =
     start_time (activities schedule_715_110_11 ! 4) \<and>
   length (activities schedule_715_110_11) = 5"
proof -
  have len: "length (activities schedule_715_110_11) = 5"
    by (simp add: schedule_715_110_11_def)
  from calculate_timeline_contiguous
    [of binary64_round default_calculator 715 110 11 schedule_715_110_11]
    calculate_715_110_11
  have z: "start_time (activities schedule_715_110_11 ! 0) = 0"
    and step: "\<And>i. Suc i < 5 \<Longrightarrow> end_time binary64_round (activities schedule_715_110_11 ! i) =
        start_time (activities schedule_715_110_11 ! Suc i)"
    by (simp_all add: len)
  from step [of 0] step [of 1] step [of 2] step [of 3] z len calculate_715_110_11
  show ?thesis by (simp add: numeral_2_eq_2 numeral_3_eq_3 eval_nat_numeral)
qed

theorem calculate_totals_witness:
  "calculate binary64_round default_calculator 715 0 5 = Some (Inr schedule_715_0_5) \<and>
   total_driving_time schedule_715_0_5 =
     durations_of binary64_round DRIVING (activities schedule_715_0_5) \<and>
   total_driving_time schedule_715_0_5 = 13 \<and>
   total_break_time schedule_715_0_5 =
     durations_of binary64_round BREAK (activities schedule_715_0_5) \<and>
   total_break_time schedule_715_0_5 = 10 \<and>
   total_load_unload_time schedule_715_0_5 =
     fadd binary64_round (loading_duration default_calculator)
       (unloading_duration default_calculator) \<and>
   total_time schedule_715_0_5 = end_time binary64_round (last (activities schedule_715_0_5)) \<and>
   total_time schedule_715_0_5 =
     foldl (fadd binary64_round) 0 (map duration (activities schedule_715_0_5)) \<and>
   total_time schedule_715_0_5 = 26"
proof -
  have d: "total_driving_time schedule_715_0_5 = 13" "total_break_time schedule_715_0_5 = 10"
    "total_time schedule_715_0_5 = 26"
    by (simp_all add: schedule_715_0_5_def)
  from calculate_totals [of binary64_round default_calculator 715 0 5 schedule_715_0_5]
    calculate_715_0_5 d
  show ?thesis by simp
qed

theorem calculate_first_and_last_witness:
  "calculate binary64_round default_calculator 330 55 11 = Some (Inr schedule_330_55_11) \<and>
   activity_type (activities schedule_330_55_11 ! 0) = LOADING \<and>
   act_notes (activities schedule_330_55_11 ! 0) = ''Loading cargo at origin'' \<and>
   activity_type (last (activities schedule_330_55_11)) = UNLOADING \<and>
   act_notes (last (activities schedule_330_55_11)) = ''Unloading cargo at destination'' \<and>
   valid_input default_calculator 0 0 11 \<and>
   calculate binary64_round default_calculator 0 0 11 = Some (Inr schedule_0_0_11) \<and>
   length (activities schedule_0_0_11) = 2 \<and>
   filter (\<lambda>a. activity_type a = DRIVING) (activities schedule_0_0_11) = [] \<and>
   total_driving_time schedule_0_0_11 = 0"
proof -
  have v: "valid_input default_calculator 0 0 11"
    by (simp add: valid_input_def default_calculator_def)
  have two: "length (activities schedule_0_0_11) = 2"
    "filter (\<lambda>a. activity_type a = DRIVING) (activities schedule_0_0_11) = []"
    "total_driving_time schedule_0_0_11 = 0"
    by (simp_all add: schedule_0_0_11_def)
  from calculate_first_and_last
      [of binary64_round default_calculator 330 55 11 schedule_330_55_11]
    calculate_first_and_last [of binary64_round default_calculator 0 0 11 schedule_0_0_11]
    calculate_330_55_11 calculate_0_0_11 v two
  show ?thesis by simp
qed

theorem calculate_zero_length_first_segment_witness:
  "calculate binary64_round default_calculator 110 0 0 = Some (Inr schedule_110_0_0) \<and>
   (0::real) < 110 \<and> binary64_round 0 = 0 \<and> binary64_round 110 = 110 \<and>
   activity_type (activities schedule_110_0_0 ! 1) = DRIVING \<and>
   miles (activities schedule_110_0_0 ! 1) = 0 \<and>
   duration (activities schedule_110_0_0 ! 1) = 0 \<and>
   activity_type (activities schedule_110_0_0 ! 2) = BREAK \<and>
   start_time (activities schedule_110_0_0 ! 2) =
     end_time binary64_round (activities schedule_110_0_0 ! 1)"
proof -
  from calculate_zero_length_first_segment
      [of binary64_round default_calculator 110 0 schedule_110_0_0]
    calculate_110_0_0
  show ?thesis by simp
qed

theorem calculate_validation_witness:
  "calculate binary64_round default_calculator (- 100) 0 11 =
     Some (Inl (ValueError Total_miles_negative)) \<and>
   calculate binary64_round default_calculator 100 (- 1) 11 =
     Some (Inl (ValueError Deadhead_miles_negative)) \<and>
   calculate binary64_round default_calculator 100 200 11 =
     Some (Inl (ValueError Deadhead_miles_exceed_total)) \<and>
   calculate binary64_round default_calculator 100 0 (- 1) =
     Some (Inl (ValueError Remaining_hours_negative)) \<and>
   calculate binary64_round default_calculator 100 0 15 =
     Some (Inl (ValueError (Remaining_hours_exceed_max 11))) \<and>
   calculate binary64_round default_calculator (- 100) (- 1) 15 =
     Some (Inl (ValueError Total_miles_negative))"
proof -
  note mx = default_calculator_simps
  from calculate_validation [of "- 100" binary64_round default_calculator 0 11]
  have 1: "calculate binary64_round default_calculator (- 100) 0 11 =
      Some (Inl (ValueError Total_miles_negative))"
    by simp
  from calculate_validation [of 100 binary64_round default_calculator "- 1" 11]
  have 2: "calculate binary64_round default_calculator 100 (- 1) 11 =
      Some (Inl (ValueError Deadhead_miles_negative))"
    by simp
  from calculate_validation [of 100 binary64_round default_calculator 200 11]
  have 3: "calculate binary64_round default_calculator 100 200 11 =
      Some (Inl (ValueError Deadhead_miles_exceed_total))"
    by simp
  from calculate_validation [of 100 binary64_round default_calculator 0 "- 1"]
  have 4: "calculate binary64_round default_calculator 100 0 (- 1) =
      Some (Inl (ValueError Remaining_hours_negative))"
    by simp
  from calculate_validation [of 100 binary64_round default_calculator 0 15]
  have 5: "calculate binary64_round default_calculator 100 0 15 =
      Some (Inl (ValueError (Remaining_hours_exceed_max 11)))"
    by (simp add: mx)
  from calculate_validation [of "- 100" binary64_round default_calculator "- 1" 15]
  have 6: "calculate binary64_round default_calculator (- 100) (- 1) 15 =
      Some (Inl (ValueError Total_miles_negative))"
    by simp
  from 1 2 3 4 5 6 show ?thesis by simp
qed

lemma first_pass_715_11:
  "miles_driven (locals_after_loading binary64_round default_calculator 715 11) = 0"
  "min (miles_remaining (locals_after_loading binary64_round default_calculator 715 11))
     (fmul binary64_round
        (hours_until_break (locals_after_loading binary64_round default_calculator 715 11))
        (speed_mph default_calculator)) = 605"
  "speed_mph default_calculator \<noteq> 0"
  by (simp_all add: locals_after_loading_def default_calculator_def float_ops)

theorem loop_body_segment_note_witness:
  "(\<exists>st' drv more.
      loop_body binary64_round default_calculator 110
        (locals_after_loading binary64_round default_calculator 715 11) = Inr st' \<and>
      lv_activities st' =
        lv_activities (locals_after_loading binary64_round default_calculator 715 11) @
          drv # more \<and>
      miles drv = 605 \<and> act_notes drv = ''Deadhead + Loaded'') \<and>
   (\<exists>st' drv more.
      loop_body binary64_round default_calculator 715
        (locals_after_loading binary64_round default_calculator 715 11) = Inr st' \<and>
      lv_activities st' =
        lv_activities (locals_after_loading binary64_round default_calculator 715 11) @
          drv # more \<and>
      miles drv = 605 \<and> act_notes drv = ''Deadhead (empty)'') \<and>
   (\<exists>st' drv more.
      loop_body binary64_round default_calculator 0
        (locals_after_loading binary64_round default_calculator 715 11) = Inr st' \<and>
      lv_activities st' =
        lv_activities (locals_after_loading binary64_round default_calculator 715 11) @
          drv # more \<and>
      miles drv = 605 \<and> act_notes drv = ''Loaded haul'')"
proof (intro conjI)
  let ?st0 = "locals_after_loading binary64_round default_calculator 715 11"
  from loop_body_Inr [OF first_pass_715_11(3)] obtain st'
    where b: "loop_body binary64_round default_calculator 110 ?st0 = Inr st'" by blast
  from loop_body_segment_note [of binary64_round default_calculator 110 ?st0 st'] b
    first_pass_715_11
  show "\<exists>st' drv more. loop_body binary64_round default_calculator 110 ?st0 = Inr st' \<and>
      lv_activities st' = lv_activities ?st0 @ drv # more \<and>
      miles drv = 605 \<and> act_notes drv = ''Deadhead + Loaded''"
    by (auto simp: fsub_def)
next
  let ?st0 = "locals_after_loading binary64_round default_calculator 715 11"
  from loop_body_Inr [OF first_pass_715_11(3)] obtain st'
    where b: "loop_body binary64_round default_calculator 715 ?st0 = Inr st'" by blast
  from loop_body_segment_note [of binary64_round default_calculator 715 ?st0 st'] b
    first_pass_715_11
  show "\<exists>st' drv more. loop_body binary64_round default_calculator 715 ?st0 = Inr st' \<and>
      lv_activities st' = lv_activities ?st0 @ drv # more \<and>
      miles drv = 605 \<and> act_notes drv = ''Deadhead (empty)''"
    by (auto simp: fsub_def)
next
  let ?st0 = "locals_after_loading binary64_round default_calculator 715 11"
  from loop_body_Inr [OF first_pass_715_11(3)] obtain st'
    where b: "loop_body binary64_round default_calculator 0 ?st0 = Inr st'" by blast
  from loop_body_segment_note [of binary64_round default_calculator 0 ?st0 st'] b
    first_pass_715_11
  show "\<exists>st' drv more. loop_body binary64_round default_calculator 0 ?st0 = Inr st' \<and>
      lv_activities st' = lv_activities ?st0 @ drv # more \<and>
      miles drv = 605 \<and> act_notes drv = ''Loaded haul''"
    by (auto simp: fsub_def)
qed


section \<open>What holds only without rounding\<close>

lemma loop_body_last_segment:
  assumes "0 < speed_mph self" "miles_remaining st \<le> hours_until_break st * speed_mph self"
  shows "\<exists>st'. loop_body exact self dm st = Inr st' \<and> miles_remaining st' = 0"
  using assms by (simp add: loop_body_def Let_def min_def float_ops exact_def)

lemma loop_body_full_segment:
  assumes "0 < speed_mph self" "hours_until_break st * speed_mph self < miles_remaining st"
  shows "\<exists>st'. loop_body exact self dm st = Inr st' \<and>
           miles_remaining st' = miles_remaining st - hours_until_break st * speed_mph self \<and>
           hours_until_break st' = max_driving_hours self"
  using assms by (simp add: loop_body_def Let_def min_def float_ops exact_def)

lemma drive_loop_full_window:
  assumes speed: "0 < speed_mph self" and mx: "0 < max_driving_hours self"
  shows "hours_until_break st = max_driving_hours self \<Longrightarrow>
         miles_remaining st \<le> real n * (max_driving_hours self * speed_mph self) \<Longrightarrow>
         \<exists>st'. drive_loop exact self dm st = Some (Inr st')"
proof (induction n arbitrary: st)
  case 0
  then have "\<not> 0 < miles_remaining st" by simp
  then show ?case by (simp add: drive_loop_no_miles)
next
  case (Suc n)
  show ?case
  proof (cases "0 < miles_remaining st")
    case False
    then show ?thesis by (simp add: drive_loop_no_miles)
  next
    case pos: True
    show ?thesis
    proof (cases "miles_remaining st \<le> hours_until_break st * speed_mph self")
      case True
      from loop_body_last_segment [OF speed True, of dm] obtain st1
        where b: "loop_body exact self dm st = Inr st1" and z: "miles_remaining st1 = 0"
        by blast
      from z have "drive_loop exact self dm st1 = Some (Inr st1)"
        by (simp add: drive_loop_no_miles)
      with drive_loop_step [OF pos b] show ?thesis by simp
    next
      case False
      then have lt: "hours_until_break st * speed_mph self < miles_remaining st" by simp
      from loop_body_full_segment [OF speed lt, of dm] obtain st1
        where b: "loop_body exact self dm st = Inr st1"
          and m: "miles_remaining st1 =
            miles_remaining st - hours_until_break st * speed_mph self"
          and h: "hours_until_break st1 = max_driving_hours self" by blast
      from m Suc.prems
      have "miles_remaining st1 \<le> real n * (max_driving_hours self * speed_mph self)"
        by (simp add: algebra_simps)
      from Suc.IH [OF h this] obtain st' where "drive_loop exact self dm st1 = Some (Inr st')" ..
      with drive_loop_step [OF pos b] show ?thesis by simp
    qed
  qed
qed

lemma drive_loop_terminates:
  assumes speed: "0 < speed_mph self" and mx: "0 < max_driving_hours self"
  shows "\<exists>st'. drive_loop exact self dm st = Some (Inr st')"
proof (cases "0 < miles_remaining st")
  case False
  then show ?thesis by (simp add: drive_loop_no_miles)
next
  case pos: True
  show ?thesis
  proof (cases "miles_remaining st \<le> hours_until_break st * speed_mph self")
    case True
    from loop_body_last_segment [OF speed True, of dm] obtain st1
      where b: "loop_body exact self dm st = Inr st1" and z: "miles_remaining st1 = 0" by blast
    from z have "drive_loop exact self dm st1 = Some (Inr st1)"
      by (simp add: drive_loop_no_miles)
    with drive_loop_step [OF pos b] show ?thesis by simp
  next
    case False
    then have lt: "hours_until_break st * speed_mph self < miles_remaining st" by simp
    from loop_body_full_segment [OF speed lt, of dm] obtain st1
      where b: "loop_body exact self dm st = Inr st1"
        and h: "hours_until_break st1 = max_driving_hours self" by blast
    define M where "M = max_driving_hours self * speed_mph self"
    have Mpos: "0 < M" using speed mx by (simp add: M_def)
    define n where "n = nat \<lceil>miles_remaining st1 / M\<rceil>"
    have "miles_remaining st1 / M \<le> real n"
      unfolding n_def by linarith
    with Mpos have "miles_remaining st1 \<le> real n * M"
      by (simp add: pos_divide_le_eq)
    from drive_loop_full_window [OF speed mx h this [unfolded M_def]]
    obtain st' where "drive_loop exact self dm st1 = Some (Inr st')" ..
    with drive_loop_step [OF pos b] show ?thesis by simp
  qed
qed

lemma calculate_returns:
  assumes "valid_input self tm dm rh" "0 < speed_mph self" "0 < max_driving_hours self"
  shows "\<exists>m. calculate exact self tm dm rh = Some (Inr m)"
proof -
  from drive_loop_terminates [OF assms(2,3)] obtain st
    where "drive_loop exact self dm (locals_after_loading exact self tm rh) = Some (Inr st)" ..
  with assms(1) show ?thesis by (simp add: calculate_valid)
qed

lemma loop_body_decreases:
  assumes "0 < speed_mph self \<and> 0 < hours_until_break st \<and> 0 < miles_remaining st"
  shows "\<exists>st'. loop_body exact self dm st = Inr st' \<and> miles_remaining st' < miles_remaining st"
proof -
  from assms have "0 < hours_until_break st * speed_mph self" by simp
  with assms have "0 < min (miles_remaining st) (hours_until_break st * speed_mph self)"
    by simp
  with assms show ?thesis
    by (simp add: loop_body_def Let_def float_ops exact_def)
qed

lemma loop_body_miles_remaining:
  "loop_body rnd self dm st = Inr st' \<Longrightarrow>
   miles_remaining st' =
     fsub rnd (miles_remaining st)
       (min (miles_remaining st) (fmul rnd (hours_until_break st) (speed_mph self)))"
  by (auto simp: loop_body_def Let_def split: if_splits)



section \<open>Claims that rounding breaks\<close>



text \<open>
  C5, as amended. In arithmetic without rounding, with \<open>speed_mph > 0\<close> and
  \<open>max_driving_hours > 0\<close> the \<open>while\<close> loop of \<open>calculate\<close> terminates (from any values of
  the local variables, so on every valid input \<open>calculate\<close> returns); a pass that starts
  with \<open>hours_until_break > 0\<close> and miles left makes \<open>miles_remaining\<close> strictly smaller;
  and a pass that ended with a Break has reset \<open>hours_until_break\<close> to
  \<open>max_driving_hours > 0\<close> with miles left, so the pass after it makes \<open>miles_remaining\<close>
  strictly smaller again. In the code's arithmetic a pass sets \<open>miles_remaining\<close> to the
  rounded difference of \<open>miles_remaining\<close> and the segment, which can be the old value.
\<close>

theorem drive_loop_terminates_and_decreases:
  "(0 < speed_mph self \<and> 0 < max_driving_hours self \<longrightarrow>
      (\<exists>st'. drive_loop exact self dm st = Some (Inr st'))) \<and>
   (valid_input self tm dm rh \<and> 0 < speed_mph self \<and> 0 < max_driving_hours self \<longrightarrow>
      (\<exists>m. calculate exact self tm dm rh = Some (Inr m))) \<and>
   (0 < speed_mph self \<and> 0 < hours_until_break st \<and> 0 < miles_remaining st \<longrightarrow>
      (\<exists>st'. loop_body exact self dm st = Inr st' \<and> miles_remaining st' < miles_remaining st)) \<and>
   (0 < speed_mph self \<and> 0 < max_driving_hours self \<and> loop_body exact self dm st = Inr st1 \<and>
    activity_type (last (lv_activities st1)) = BREAK \<longrightarrow>
      hours_until_break st1 = max_driving_hours self \<and> 0 < miles_remaining st1 \<and>
      (\<exists>st2. loop_body exact self dm st1 = Inr st2 \<and> miles_remaining st2 < miles_remaining st1)) \<and>
   (loop_body rnd self dm st = Inr st' \<longrightarrow>
      miles_remaining st' =
        fsub rnd (miles_remaining st)
          (min (miles_remaining st) (fmul rnd (hours_until_break st) (speed_mph self))))"
proof (intro conjI impI)
  assume "0 < speed_mph self \<and> 0 < max_driving_hours self"
  then show "\<exists>st'. drive_loop exact self dm st = Some (Inr st')"
    by (simp add: drive_loop_terminates)
next
  assume "valid_input self tm dm rh \<and> 0 < speed_mph self \<and> 0 < max_driving_hours self"
  then show "\<exists>m. calculate exact self tm dm rh = Some (Inr m)"
    by (simp add: calculate_returns)
next
  assume "0 < speed_mph self \<and> 0 < hours_until_break st \<and> 0 < miles_remaining st"
  then show "\<exists>st'. loop_body exact self dm st = Inr st' \<and> miles_remaining st' < miles_remaining st"
    by (rule loop_body_decreases)
next
  assume a: "0 < speed_mph self \<and> 0 < max_driving_hours self \<and>
    loop_body exact self dm st = Inr st1 \<and> activity_type (last (lv_activities st1)) = BREAK"
  then have brk: "hours_until_break st1 = max_driving_hours self \<and> 0 < miles_remaining st1"
    by (auto simp: loop_body_def Let_def split: if_splits)
  then show "hours_until_break st1 = max_driving_hours self" "0 < miles_remaining st1"
    by simp_all
  from a brk have "0 < speed_mph self \<and> 0 < hours_until_break st1 \<and> 0 < miles_remaining st1"
    by simp
  then show "\<exists>st2. loop_body exact self dm st1 = Inr st2 \<and> miles_remaining st2 < miles_remaining st1"
    by (rule loop_body_decreases)
next
  assume "loop_body rnd self dm st = Inr st'"
  then show "miles_remaining st' =
        fsub rnd (miles_remaining st)
          (min (miles_remaining st) (fmul rnd (hours_until_break st) (speed_mph self)))"
    by (rule loop_body_miles_remaining)
qed

lemma loop_body_exact_715_110_11:
  "loop_body exact default_calculator 110 (locals_after_loading exact default_calculator 715 11) =
     Inr \<lparr>lv_activities =
            [loading_activity default_calculator,
             \<lparr>activity_type = DRIVING, start_time = 3 / 2, duration = 11, miles = 605,
              act_notes = ''Deadhead + Loaded''\<rparr>,
             \<lparr>activity_type = BREAK, start_time = 25 / 2, duration = 10, miles = 0,
              act_notes = ''Mandatory 10-hour rest''\<rparr>],
          current_time = 45 / 2, miles_driven = 605, hours_until_break = 11,
          lv_total_driving_time = 11, lv_total_break_time = 10, miles_remaining = 110\<rparr>"
  by (simp add: loop_body_def Let_def locals_after_loading_def default_calculator_def
      float_ops exact_def)

lemma round_absorbs_605:
  "binary64_round 9999999999999999395 = 10000000000000000000"
  using binary64_round_ulp_pos [of 11 9999999999999999395 4882812500000000]
  by (simp add: round_half_even_def)

lemma round_10_to_19: "binary64_round 10000000000000000000 = 10000000000000000000"
  using binary64_round_representable [of 19073486328125 19] by (simp add: powr_realpow)

theorem drive_loop_terminates_and_decreases_witness:
  "(\<exists>st'. drive_loop exact default_calculator 110
      (locals_after_loading exact default_calculator 715 11) = Some (Inr st')) \<and>
   valid_input default_calculator 715 110 11 \<and>
   (\<exists>m. calculate exact default_calculator 715 110 11 = Some (Inr m)) \<and>
   (\<exists>st1. loop_body exact default_calculator 110
      (locals_after_loading exact default_calculator 715 11) = Inr st1 \<and>
      miles_remaining st1 < miles_remaining (locals_after_loading exact default_calculator 715 11) \<and>
      activity_type (last (lv_activities st1)) = BREAK \<and>
      hours_until_break st1 = 11 \<and> miles_remaining st1 = 110 \<and>
      (\<exists>st2. loop_body exact default_calculator 110 st1 = Inr st2 \<and>
         miles_remaining st2 < miles_remaining st1)) \<and>
   (\<exists>st'. loop_body binary64_round default_calculator 0
      (locals_after_loading binary64_round default_calculator 10000000000000000000 11) =
        Inr st' \<and>
      miles_remaining st' = 10000000000000000000)"
proof -
  let ?st0 = "locals_after_loading exact default_calculator 715 11"
  let ?st1 = "\<lparr>lv_activities =
            [loading_activity default_calculator,
             \<lparr>activity_type = DRIVING, start_time = 3 / 2, duration = 11, miles = 605,
              act_notes = ''Deadhead + Loaded''\<rparr>,
             \<lparr>activity_type = BREAK, start_time = 25 / 2, duration = 10, miles = 0,
              act_notes = ''Mandatory 10-hour rest''\<rparr>],
          current_time = 45 / 2, miles_driven = 605, hours_until_break = 11,
          lv_total_driving_time = 11, lv_total_break_time = 10, miles_remaining = 110\<rparr>"
  let ?big = "locals_after_loading binary64_round default_calculator 10000000000000000000 11"
  have v: "valid_input default_calculator 715 110 11"
    by (simp add: valid_input_def default_calculator_def)
  have st0: "0 < hours_until_break ?st0" "0 < miles_remaining ?st0" "miles_remaining ?st0 = 715"
    by (simp_all add: locals_after_loading_def)
  from loop_body_Inr [of default_calculator binary64_round 0 ?big] obtain st'
    where b: "loop_body binary64_round default_calculator 0 ?big = Inr st'"
    by (auto simp: default_calculator_simps)
  have big: "miles_remaining ?big = 10000000000000000000" "hours_until_break ?big = 11"
    by (simp_all add: locals_after_loading_def)
  from drive_loop_terminates_and_decreases
    [where self = default_calculator and dm = 110 and st = ?st0 and tm = 715 and rh = 11 and
      ?st1.0 = ?st1]
  have 1: "(\<exists>st'. drive_loop exact default_calculator 110 ?st0 = Some (Inr st')) \<and>
      (\<exists>m. calculate exact default_calculator 715 110 11 = Some (Inr m)) \<and>
      (\<exists>st1. loop_body exact default_calculator 110 ?st0 = Inr st1 \<and>
         miles_remaining st1 < miles_remaining ?st0 \<and>
         activity_type (last (lv_activities st1)) = BREAK \<and>
         hours_until_break st1 = 11 \<and> miles_remaining st1 = 110 \<and>
         (\<exists>st2. loop_body exact default_calculator 110 st1 = Inr st2 \<and>
            miles_remaining st2 < miles_remaining st1))"
    using v st0 loop_body_exact_715_110_11 by (simp add: default_calculator_simps)
  from drive_loop_terminates_and_decreases
    [where self = default_calculator and dm = 0 and st = ?big and rnd = binary64_round and
      st' = st'] b
  have "miles_remaining st' = 10000000000000000000"
    by (simp add: big default_calculator_simps float_ops round_absorbs_605)
  with b 1 v show ?thesis by blast
qed

text \<open>
  The claim as it was stated fails on floats: on 10^19 miles with the default
  configuration every pass drives 605 miles, the subtraction gives 10^19 back, and the
  loop never ends.
\<close>

theorem drive_loop_never_ends_counterexample:
  "valid_input default_calculator 10000000000000000000 0 11 \<and>
   0 < speed_mph default_calculator \<and> 0 < max_driving_hours default_calculator \<and>
   binary64_round 10000000000000000000 = 10000000000000000000 \<and>
   calculate binary64_round default_calculator 10000000000000000000 0 11 = None"
proof -
  let ?st0 = "locals_after_loading binary64_round default_calculator 10000000000000000000 11"
  let ?P = "\<lambda>s. miles_remaining s = 10000000000000000000 \<and> hours_until_break s = 11"
  have v: "valid_input default_calculator 10000000000000000000 0 11"
    by (simp add: valid_input_def default_calculator_def)
  have step: "?P s'" if "?P s" "loop_body binary64_round default_calculator 0 s = Inr s'"
    for s s'
    using that
    by (auto simp: loop_body_def Let_def default_calculator_def float_ops round_absorbs_605
        split: if_splits)
  have "drive_loop binary64_round default_calculator 0 ?st0 = None"
  proof (cases "drive_loop binary64_round default_calculator 0 ?st0")
    case None
    then show ?thesis .
  next
    case (Some r)
    show ?thesis
    proof (cases r)
      case (Inl e)
      with Some drive_loop_error [of binary64_round default_calculator 0 ?st0 e]
      show ?thesis by (simp add: default_calculator_simps)
    next
      case (Inr st')
      with Some have run: "drive_loop binary64_round default_calculator 0 ?st0 = Some (Inr st')"
        by simp
      have "?P st' \<and> \<not> 0 < miles_remaining st'"
      proof (rule drive_loop_invariant [OF run, of ?P])
        show "?P ?st0" by (simp add: locals_after_loading_def)
      next
        fix s s'
        assume "?P s" "loop_body binary64_round default_calculator 0 s = Inr s'"
        then show "?P s'" by (rule step)
      qed
      then show ?thesis by auto
    qed
  qed
  with v have "calculate binary64_round default_calculator 10000000000000000000 0 11 = None"
    by (simp add: calculate_valid)
  with v round_10_to_19 show ?thesis by (simp add: default_calculator_simps)
qed






end
